theory Spec2Isabelle
  imports Main "HOL-Library.Word"
begin

section \<open>Identifiers\<close>

text \<open>
  \<^verbatim>\<open>osmium::object_id_type\<close> is a signed 64-bit integer and
  \<^verbatim>\<open>osmium::unsigned_object_id_type\<close> its unsigned counterpart; both are declared
  in the osmium library, not in this file. A 64-bit word carries both readings:
  \<open>sint\<close> for the signed one and \<open>unat\<close> for the unsigned one.
\<close>

type_synonym object_id_type = "64 word"
type_synonym unsigned_object_id_type = "64 word"

text \<open>
  \<^verbatim>\<open>std::abs(id)\<close> followed by the conversion to the unsigned type. For the
  least 64-bit value the C++ standard leaves \<^verbatim>\<open>std::abs\<close> undefined; the model
  takes the two's-complement negation, which wraps to the same bit pattern.
\<close>

definition std_abs :: "object_id_type \<Rightarrow> unsigned_object_id_type" where
  "std_abs i = (if sint i < 0 then - i else i)"

section \<open>bitsvec\<close>

text \<open>
  \<^verbatim>\<open>std::vector<bool>::resize(n)\<close>: truncates, or appends \<open>False\<close> bits. A list has
  no bound on its length: an allocation that fails in the program ends the process and is
  not a value of the model.
\<close>

definition resize :: "nat \<Rightarrow> bool list \<Rightarrow> bool list" where
  "resize n xs = (if n \<le> length xs then take n xs else xs @ replicate (n - length xs) False)"

record bitsvec =
  m_bits :: "bool list"

definition bitsvec_init :: bitsvec where
  "bitsvec_init = \<lparr>m_bits = []\<rparr>"

definition bitsvec_set :: "object_id_type \<Rightarrow> bitsvec \<Rightarrow> bitsvec" where
  "bitsvec_set i b =
     (let pid = std_abs i;
          bits = (if length (m_bits b) \<le> unat pid
                  then resize (unat (pid + 1024 * 1024)) (m_bits b)
                  else m_bits b)
      in b\<lparr>m_bits := bits[unat pid := True]\<rparr>)"

definition bitsvec_get :: "object_id_type \<Rightarrow> bitsvec \<Rightarrow> bool" where
  "bitsvec_get i b =
     (let pid = std_abs i in unat pid < length (m_bits b) \<and> m_bits b ! unat pid)"

section \<open>The stream\<close>

text \<open>
  \<^verbatim>\<open>osmium::item_type\<close> is declared in the osmium library. The handler's switch
  names three of its values; every other value takes the default branch.
\<close>

datatype item_type =
  it_undefined | it_node | it_way | it_relation | it_area | it_changeset

datatype RelationMember =
  RelationMember (member_type: item_type) (member_ref: object_id_type)

datatype osm_object =
    Node object_id_type
  | Way object_id_type "object_id_type list"
  | Relation object_id_type "RelationMember list"

section \<open>RefCheckHandler\<close>

text \<open>A line written to \<^verbatim>\<open>std::cout\<close>: \<^verbatim>\<open>"n" << ref << " in w" << id\<close> and its siblings.\<close>

datatype cout_line =
    NodeInWay object_id_type object_id_type
  | NodeInRelation object_id_type object_id_type
  | WayInRelation object_id_type object_id_type
  | RelationInRelation "32 word"

text \<open>
  \<^verbatim>\<open>std::set<uint32_t>\<close> is kept as the list of its elements in iteration order,
  which is strictly ascending; \<open>std_set_insert\<close> keeps it so.
\<close>

definition std_set_insert :: "32 word \<Rightarrow> 32 word list \<Rightarrow> 32 word list" where
  "std_set_insert x xs = (if x \<in> set xs then xs else insort x xs)"

text \<open>
  The messages sent to the verbose log \<^verbatim>\<open>m_vout\<close> are not part of the model; the
  lines on \<^verbatim>\<open>std::cout\<close> are collected in \<open>cout\<close>.
\<close>

record RefCheckHandler =
  m_nodes :: bitsvec
  m_ways :: bitsvec
  m_relation_ids :: "32 word list"
  m_member_relation_ids :: "32 word list"
  m_missing_relation_ids :: "32 word list"
  m_node_count :: "64 word"
  m_way_count :: "64 word"
  m_relation_count :: "64 word"
  m_missing_nodes_in_ways :: "64 word"
  m_missing_nodes_in_relations :: "64 word"
  m_missing_ways_in_relations :: "64 word"
  m_show_ids :: bool
  m_check_relations :: bool
  m_relations_done :: bool
  cout :: "cout_line list"

definition RefCheckHandler_init :: "bool \<Rightarrow> bool \<Rightarrow> RefCheckHandler" where
  "RefCheckHandler_init show_ids check_relations =
     \<lparr>m_nodes = bitsvec_init, m_ways = bitsvec_init,
      m_relation_ids = [], m_member_relation_ids = [], m_missing_relation_ids = [],
      m_node_count = 0, m_way_count = 0, m_relation_count = 0,
      m_missing_nodes_in_ways = 0, m_missing_nodes_in_relations = 0,
      m_missing_ways_in_relations = 0,
      m_show_ids = show_ids, m_check_relations = check_relations,
      m_relations_done = False, cout = []\<rparr>"

text \<open>\<^verbatim>\<open>std::set_difference\<close> on two ascending ranges.\<close>

fun set_difference :: "32 word list \<Rightarrow> 32 word list \<Rightarrow> 32 word list" where
  "set_difference [] ys = []"
| "set_difference (x # xs) [] = x # xs"
| "set_difference (x # xs) (y # ys) =
     (if x < y then x # set_difference xs (y # ys)
      else if y < x then set_difference (x # xs) ys
      else set_difference xs ys)"

definition missing_relations_in_relations :: "RefCheckHandler \<Rightarrow> 64 word \<times> RefCheckHandler" where
  "missing_relations_in_relations h =
     (let h' = (if \<not> m_relations_done h
                then (let h1 = h\<lparr>m_relation_ids := sort (m_relation_ids h)\<rparr>;
                          h2 = h1\<lparr>m_missing_relation_ids := m_missing_relation_ids h1 @
                                  set_difference (m_member_relation_ids h1) (m_relation_ids h1)\<rparr>
                      in h2\<lparr>m_relations_done := True\<rparr>)
                else h)
      in (of_nat (length (m_missing_relation_ids h')), h'))"

text \<open>The operands of \<^verbatim>\<open>||\<close> are evaluated left to right, stopping at the first true one.\<close>

definition any_errors :: "RefCheckHandler \<Rightarrow> bool \<times> RefCheckHandler" where
  "any_errors h =
     (if m_missing_nodes_in_ways h > 0 then (True, h)
      else if m_missing_nodes_in_relations h > 0 then (True, h)
      else if m_missing_ways_in_relations h > 0 then (True, h)
      else (let (n, h') = missing_relations_in_relations h in (n > 0, h')))"

definition node :: "object_id_type \<Rightarrow> RefCheckHandler \<Rightarrow> RefCheckHandler" where
  "node node_id h =
     (let h1 = h\<lparr>m_node_count := m_node_count h + 1\<rparr>
      in h1\<lparr>m_nodes := bitsvec_set node_id (m_nodes h1)\<rparr>)"

text \<open>The body of the loop over \<^verbatim>\<open>way.nodes()\<close>.\<close>

definition way_node_ref :: "object_id_type \<Rightarrow> object_id_type \<Rightarrow> RefCheckHandler \<Rightarrow> RefCheckHandler" where
  "way_node_ref way_id node_ref h =
     (if \<not> bitsvec_get node_ref (m_nodes h)
      then (let h1 = h\<lparr>m_missing_nodes_in_ways := m_missing_nodes_in_ways h + 1\<rparr>
            in if m_show_ids h1 then h1\<lparr>cout := cout h1 @ [NodeInWay node_ref way_id]\<rparr> else h1)
      else h)"

definition way :: "object_id_type \<Rightarrow> object_id_type list \<Rightarrow> RefCheckHandler \<Rightarrow> RefCheckHandler" where
  "way way_id nodes h =
     (let h1 = h\<lparr>m_way_count := m_way_count h + 1\<rparr>;
          h2 = (if m_check_relations h1 then h1\<lparr>m_ways := bitsvec_set way_id (m_ways h1)\<rparr> else h1)
      in fold (way_node_ref way_id) nodes h2)"

text \<open>The body of the loop over \<^verbatim>\<open>relation.members()\<close>: the switch on the member's type.\<close>

definition relation_member :: "object_id_type \<Rightarrow> RelationMember \<Rightarrow> RefCheckHandler \<Rightarrow> RefCheckHandler" where
  "relation_member relation_id member h =
     (case member_type member of
        it_node \<Rightarrow>
          (if \<not> bitsvec_get (member_ref member) (m_nodes h)
           then (let h1 = h\<lparr>m_missing_nodes_in_relations := m_missing_nodes_in_relations h + 1\<rparr>;
                     h2 = h1\<lparr>m_nodes := bitsvec_set (member_ref member) (m_nodes h1)\<rparr>
                 in if m_show_ids h2
                    then h2\<lparr>cout := cout h2 @ [NodeInRelation (member_ref member) relation_id]\<rparr>
                    else h2)
           else h)
      | it_way \<Rightarrow>
          (if \<not> bitsvec_get (member_ref member) (m_ways h)
           then (let h1 = h\<lparr>m_missing_ways_in_relations := m_missing_ways_in_relations h + 1\<rparr>;
                     h2 = h1\<lparr>m_ways := bitsvec_set (member_ref member) (m_ways h1)\<rparr>
                 in if m_show_ids h2
                    then h2\<lparr>cout := cout h2 @ [WayInRelation (member_ref member) relation_id]\<rparr>
                    else h2)
           else h)
      | it_relation \<Rightarrow>
          h\<lparr>m_member_relation_ids := std_set_insert (ucast relation_id) (m_member_relation_ids h)\<rparr>
      | _ \<Rightarrow> h)"

definition relation :: "object_id_type \<Rightarrow> RelationMember list \<Rightarrow> RefCheckHandler \<Rightarrow> RefCheckHandler" where
  "relation relation_id members h =
     (let h1 = h\<lparr>m_relation_count := m_relation_count h + 1\<rparr>
      in if m_check_relations h1
         then (let h2 = h1\<lparr>m_relation_ids := m_relation_ids h1 @ [ucast relation_id]\<rparr>
               in fold (relation_member relation_id) members h2)
         else h1)"

definition show_missing_relation_ids :: "RefCheckHandler \<Rightarrow> RefCheckHandler" where
  "show_missing_relation_ids h =
     h\<lparr>cout := cout h @ map RelationInRelation (m_missing_relation_ids h)\<rparr>"

section \<open>CommandCheckRefs::run\<close>

text \<open>
  \<^verbatim>\<open>osmium::apply(reader, handler)\<close> hands every object of the input to the handler
  function of its type, in input order. The reader is not part of this file: the input is
  the list of its objects.
\<close>

fun dispatch :: "osm_object \<Rightarrow> RefCheckHandler \<Rightarrow> RefCheckHandler" where
  "dispatch (Node i) h = node i h"
| "dispatch (Way i ns) h = way i ns h"
| "dispatch (Relation i ms) h = relation i ms h"

definition apply_handler :: "osm_object list \<Rightarrow> RefCheckHandler \<Rightarrow> RefCheckHandler" where
  "apply_handler objects h = fold dispatch objects h"

text \<open>
  The handler as \<^verbatim>\<open>run\<close> leaves it just before its return statement; the summary
  written to \<^verbatim>\<open>std::cerr\<close> is not modelled, the calls it makes are.
\<close>

definition run_handler :: "bool \<Rightarrow> bool \<Rightarrow> osm_object list \<Rightarrow> RefCheckHandler" where
  "run_handler show_ids check_relations objects =
     (let h = apply_handler objects (RefCheckHandler_init show_ids check_relations);
          h1 = (if check_relations then snd (missing_relations_in_relations h) else h)
      in if show_ids then show_missing_relation_ids h1 else h1)"

definition run :: "bool \<Rightarrow> bool \<Rightarrow> osm_object list \<Rightarrow> bool" where
  "run show_ids check_relations objects =
     (\<not> fst (any_errors (run_handler show_ids check_relations objects)))"

section \<open>Vocabulary of the statements\<close>

text \<open>The ids of the members of one type, in member order.\<close>

definition member_refs :: "item_type \<Rightarrow> RelationMember list \<Rightarrow> object_id_type list" where
  "member_refs t members = map member_ref (filter (\<lambda>m. member_type m = t) members)"

text \<open>
  The check that \<open>relation_member\<close> makes for a node member on \<open>m_nodes\<close> and its
  counter, and for a way member on \<open>m_ways\<close> and its counter: count the id when its bit
  is not set, and set the bit.
\<close>

fun count_and_mark :: "object_id_type \<Rightarrow> bitsvec \<times> 64 word \<Rightarrow> bitsvec \<times> 64 word" where
  "count_and_mark x (b, c) = (if \<not> bitsvec_get x b then (bitsvec_set x b, c + 1) else (b, c))"

section \<open>Absolute values of 64-bit ids\<close>

lemma int_mod_shift: "- m \<le> k \<Longrightarrow> k < 0 \<Longrightarrow> (k::int) mod m = k + m"
proof -
  assume a: "- m \<le> k" "k < 0"
  have "k mod m = (k + m) mod m" by simp
  also have "\<dots> = k + m" using a by (intro mod_pos_pos_trivial) auto
  finally show ?thesis .
qed

lemma sint_neg_iff: "sint (w::64 word) < 0 \<longleftrightarrow> 2 ^ 63 \<le> uint w"
proof -
  have a: "uint w = sint w mod 2 ^ 64"
    using uint_sint [of w] by (simp add: take_bit_eq_mod)
  have b: "- (2 ^ 63) \<le> sint w" using sint_ge [of w] by simp
  have c: "sint w < 2 ^ 63" using sint_lt [of w] by simp
  show ?thesis
  proof (cases "sint w < 0")
    case True
    then have "sint w mod 2 ^ 64 = sint w + 2 ^ 64"
      using b by (intro int_mod_shift) auto
    then show ?thesis using a b True by simp
  next
    case False
    then have "sint w mod 2 ^ 64 = sint w" using c by simp
    then show ?thesis using a c False by simp
  qed
qed

lemma uint_std_abs: "uint (std_abs i) = (if 2 ^ 63 \<le> uint i then 2 ^ 64 - uint i else uint i)"
proof (cases "2 ^ 63 \<le> uint i")
  case True
  have "uint i < 2 ^ 64" using uint_lt2p [of i] by simp
  then have "(- uint i) mod 2 ^ 64 = - uint i + 2 ^ 64"
    using True by (intro int_mod_shift) auto
  then show ?thesis using True by (simp add: std_abs_def sint_neg_iff uint_word_ariths)
next
  case False
  then show ?thesis by (simp add: std_abs_def sint_neg_iff)
qed

lemma unat_std_abs_le: "unat (std_abs i) \<le> 2 ^ 63"
proof -
  have "uint (std_abs i) \<le> 2 ^ 63" by (simp add: uint_std_abs)
  then have "nat (uint (std_abs i)) \<le> nat (2 ^ 63)" by (rule nat_mono)
  then show ?thesis by (simp only: unat_eq_nat_uint nat_power_eq nat_numeral)
qed

lemma std_abs_minus: "std_abs (- i) = std_abs i"
proof -
  have "uint (std_abs (- i)) = uint (std_abs i)"
  proof (cases "i = 0")
    case True then show ?thesis by simp
  next
    case False
    then have nz: "uint i \<noteq> 0" by (simp add: uint_0_iff)
    have lt: "uint i < 2 ^ 64" using uint_lt2p [of i] by simp
    have ge: "0 < uint i" using nz uint_ge_0 [of i] by linarith
    have "(- uint i) mod 2 ^ 64 = - uint i + 2 ^ 64"
      using lt ge by (intro int_mod_shift) auto
    then have m: "uint (- i) = 2 ^ 64 - uint i" by (simp add: uint_word_ariths)
    show ?thesis unfolding uint_std_abs m using nz lt ge by auto
  qed
  then show ?thesis by (simp only: word_uint_eq_iff)
qed

lemma std_abs_idem: "std_abs (std_abs i) = std_abs i"
  by (metis std_abs_def std_abs_minus)

text \<open>The new size \<^verbatim>\<open>pid + 1024 * 1024\<close> never wraps: \<open>pid\<close> is at most \<open>2 ^ 63\<close>.\<close>

lemma unat_std_abs_chunk: "unat (std_abs i + 1048576) = unat (std_abs i) + 1048576"
proof -
  have "unat (std_abs i) + unat (1048576 :: 64 word) < 2 ^ LENGTH(64)"
    using unat_std_abs_le [of i] by simp
  then have "unat (std_abs i + 1048576) = unat (std_abs i) + unat (1048576 :: 64 word)"
    by (rule unat_add_lem [THEN iffD1])
  then show ?thesis by simp
qed

section \<open>Reading and writing bits\<close>

lemma resize_grow:
  "length (m_bits b) \<le> unat (std_abs i) \<Longrightarrow>
   resize (unat (std_abs i + 1024 * 1024)) (m_bits b) =
     m_bits b @ replicate (unat (std_abs i) + 1048576 - length (m_bits b)) False"
  by (simp add: resize_def unat_std_abs_chunk)

lemma bitsvec_set_alt:
  "bitsvec_set i b =
     b\<lparr>m_bits := (if length (m_bits b) \<le> unat (std_abs i)
                    then m_bits b @ replicate (unat (std_abs i) + 1048576 - length (m_bits b)) False
                    else m_bits b)[unat (std_abs i) := True]\<rparr>"
proof (cases "length (m_bits b) \<le> unat (std_abs i)")
  case True
  then show ?thesis
    unfolding bitsvec_set_def Let_def by (simp only: resize_grow if_True)
next
  case False
  then show ?thesis
    unfolding bitsvec_set_def Let_def by (simp only: if_False)
qed

lemma length_bitsvec_set:
  "length (m_bits (bitsvec_set i b)) =
     (if length (m_bits b) \<le> unat (std_abs i) then unat (std_abs i) + 1048576
      else length (m_bits b))"
  by (simp add: bitsvec_set_alt)

lemma bitsvec_get_init [simp]: "\<not> bitsvec_get j bitsvec_init"
  by (simp add: bitsvec_get_def bitsvec_init_def)

lemma bitsvec_get_set:
  "bitsvec_get j (bitsvec_set i b) \<longleftrightarrow> std_abs j = std_abs i \<or> bitsvec_get j b"
proof (cases "std_abs j = std_abs i")
  case True
  then show ?thesis
    by (simp add: bitsvec_get_def Let_def bitsvec_set_alt)
next
  case False
  then have ne: "unat (std_abs j) \<noteq> unat (std_abs i)"
    by (simp add: word_unat_eq_iff)
  show ?thesis
  proof (cases "length (m_bits b) \<le> unat (std_abs i)")
    case True
    then show ?thesis using ne False
      by (auto simp: bitsvec_get_def Let_def bitsvec_set_alt nth_append)
  next
    case F2: False
    then show ?thesis using ne False
      by (simp add: bitsvec_get_def Let_def bitsvec_set_alt)
  qed
qed

lemma bitsvec_get_std_abs: "std_abs j = std_abs i \<Longrightarrow> bitsvec_get j b = bitsvec_get i b"
  by (simp add: bitsvec_get_def)

lemma length_bitsvec_set_ge: "length (m_bits b) \<le> length (m_bits (bitsvec_set i b))"
  by (simp add: length_bitsvec_set)

lemma bitsvec_get_fold_set:
  "bitsvec_get j (fold bitsvec_set ids b) \<longleftrightarrow>
     bitsvec_get j b \<or> (\<exists>i \<in> set ids. std_abs i = std_abs j)"
  by (induction ids arbitrary: b) (auto simp: bitsvec_get_set)

lemma length_fold_bitsvec_set_ge: "length (m_bits b) \<le> length (m_bits (fold bitsvec_set ids b))"
proof (induction ids arbitrary: b)
  case Nil
  show ?case by simp
next
  case (Cons i ids)
  have "length (m_bits b) \<le> length (m_bits (bitsvec_set i b))"
    by (rule length_bitsvec_set_ge)
  also have "\<dots> \<le> length (m_bits (fold bitsvec_set ids (bitsvec_set i b)))"
    by (rule Cons.IH)
  finally show ?case by simp
qed

lemma capacity_fold_bitsvec_set:
  "i \<in> set ids \<Longrightarrow> unat (std_abs i) < length (m_bits (fold bitsvec_set ids b))"
proof (induction ids arbitrary: b)
  case Nil
  then show ?case by simp
next
  case (Cons k ids)
  show ?case
  proof (cases "i = k")
    case True
    have "unat (std_abs i) < length (m_bits (bitsvec_set i b))"
      by (simp add: length_bitsvec_set)
    also have "\<dots> \<le> length (m_bits (fold bitsvec_set ids (bitsvec_set i b)))"
      by (rule length_fold_bitsvec_set_ge)
    finally show ?thesis using True by simp
  next
    case False
    with Cons.prems have "i \<in> set ids" by simp
    then show ?thesis using Cons.IH by simp
  qed
qed

section \<open>The way handler\<close>

text \<open>
  The loop over the node list in closed form: it changes the counter of nodes missing in
  ways and the output, and nothing else.
\<close>

lemma way_node_ref_eq:
  "way_node_ref w r h =
     h\<lparr>m_missing_nodes_in_ways :=
          m_missing_nodes_in_ways h + of_nat (length (filter (\<lambda>r. \<not> bitsvec_get r (m_nodes h)) [r])),
       cout := cout h @ (if m_show_ids h
                         then map (\<lambda>r. NodeInWay r w) (filter (\<lambda>r. \<not> bitsvec_get r (m_nodes h)) [r])
                         else [])\<rparr>"
  by (simp add: way_node_ref_def Let_def)

lemma fold_way_node_ref:
  "fold (way_node_ref w) ns h =
     (h::RefCheckHandler)\<lparr>m_missing_nodes_in_ways :=
          m_missing_nodes_in_ways h + of_nat (length (filter (\<lambda>r. \<not> bitsvec_get r (m_nodes h)) ns)),
       cout := cout h @ (if m_show_ids h
                         then map (\<lambda>r. NodeInWay r w) (filter (\<lambda>r. \<not> bitsvec_get r (m_nodes h)) ns)
                         else [])\<rparr>"
proof (induction ns arbitrary: h)
  case Nil
  show ?case by simp
next
  case (Cons n ns)
  show ?case
    by (simp only: fold_simps comp_apply Cons.IH) (simp add: way_node_ref_eq)
qed

lemma m_nodes_way: "m_nodes (way w ns h) = m_nodes h"
  by (simp add: way_def Let_def fold_way_node_ref)

lemma m_ways_way:
  "m_ways (way w ns h) = (if m_check_relations h then bitsvec_set w (m_ways h) else m_ways h)"
  by (simp add: way_def Let_def fold_way_node_ref)

lemma m_missing_nodes_in_ways_way:
  "m_missing_nodes_in_ways (way w ns h) =
     m_missing_nodes_in_ways h + of_nat (length (filter (\<lambda>r. \<not> bitsvec_get r (m_nodes h)) ns))"
  by (simp add: way_def Let_def fold_way_node_ref)

lemma relation_unchecked:
  "\<not> m_check_relations h \<Longrightarrow> relation i ms h = h\<lparr>m_relation_count := m_relation_count h + 1\<rparr>"
  by (simp add: relation_def Let_def)

section \<open>Counting a missing member once\<close>

text \<open>
  Folding \<open>count_and_mark\<close> over a list of ids sets the bits of all of them and adds to
  the counter the number of distinct absolute values among those whose bit was not set at
  the start.
\<close>

lemma count_and_mark_get:
  "bitsvec_get j (fst (count_and_mark x bc)) \<longleftrightarrow> bitsvec_get j (fst bc) \<or> std_abs x = std_abs j"
proof (cases bc)
  case (Pair b c)
  show ?thesis
  proof (cases "bitsvec_get x b")
    case True
    then show ?thesis using Pair bitsvec_get_std_abs [of x j b] by auto
  next
    case False
    then show ?thesis using Pair by (auto simp: bitsvec_get_set)
  qed
qed

lemma fold_count_and_mark_get:
  "bitsvec_get j (fst (fold count_and_mark xs bc)) \<longleftrightarrow>
     bitsvec_get j (fst bc) \<or> (\<exists>r \<in> set xs. std_abs r = std_abs j)"
  by (induction xs arbitrary: bc) (auto simp: count_and_mark_get)

lemma card_insert_new_abs:
  assumes "\<not> bitsvec_get x b"
  shows "card (std_abs ` {r \<in> set (x # xs). \<not> bitsvec_get r b}) =
         Suc (card (std_abs ` {r \<in> set xs. \<not> bitsvec_get r (bitsvec_set x b)}))"
proof -
  let ?B = "std_abs ` {r \<in> set xs. \<not> bitsvec_get r (bitsvec_set x b)}"
  have "std_abs ` {r \<in> set (x # xs). \<not> bitsvec_get r b} = insert (std_abs x) ?B"
    using assms by (auto simp: bitsvec_get_set)
  moreover have "std_abs x \<notin> ?B" by (auto simp: bitsvec_get_set)
  moreover have "finite ?B" by simp
  ultimately show ?thesis by simp
qed

lemma card_insert_old_abs:
  assumes "bitsvec_get x b"
  shows "card (std_abs ` {r \<in> set (x # xs). \<not> bitsvec_get r b}) =
         card (std_abs ` {r \<in> set xs. \<not> bitsvec_get r b})"
proof -
  have "{r \<in> set (x # xs). \<not> bitsvec_get r b} = {r \<in> set xs. \<not> bitsvec_get r b}"
    using assms by auto
  then show ?thesis by simp
qed

lemma fold_count_and_mark_count:
  "snd (fold count_and_mark xs (b, c)) =
     c + of_nat (card (std_abs ` {r \<in> set xs. \<not> bitsvec_get r b}))"
proof (induction xs arbitrary: b c)
  case Nil
  show ?case by simp
next
  case (Cons x xs)
  show ?case
  proof (cases "bitsvec_get x b")
    case True
    then have "fold count_and_mark (x # xs) (b, c) = fold count_and_mark xs (b, c)"
      by simp
    then show ?thesis
      by (simp only: Cons.IH card_insert_old_abs [OF True])
  next
    case False
    then have "fold count_and_mark (x # xs) (b, c) = fold count_and_mark xs (bitsvec_set x b, c + 1)"
      by simp
    then show ?thesis
      by (simp only: Cons.IH card_insert_new_abs [OF False]) simp
  qed
qed

lemma card_abs_as_list:
  "card (std_abs ` {r \<in> set xs. \<not> bitsvec_get r b}) =
     length (remdups (map std_abs (filter (\<lambda>r. \<not> bitsvec_get r b) xs)))"
proof -
  have "std_abs ` {r \<in> set xs. \<not> bitsvec_get r b} =
        set (map std_abs (filter (\<lambda>r. \<not> bitsvec_get r b) xs))"
    by auto
  then show ?thesis by (simp only: length_remdups_card_conv)
qed

lemma fst_fold_count_and_mark_pair:
  "fold count_and_mark xs (b, c) = (b', c') \<Longrightarrow>
   bitsvec_get j b' \<longleftrightarrow> bitsvec_get j b \<or> (\<exists>r \<in> set xs. std_abs r = std_abs j)"
  using fold_count_and_mark_get [of j xs "(b, c)"] by simp

lemma snd_fold_count_and_mark_pair:
  "fold count_and_mark xs (b, c) = (b', c') \<Longrightarrow>
   c' = c + of_nat (length (remdups (map std_abs (filter (\<lambda>r. \<not> bitsvec_get r b) xs))))"
  using fold_count_and_mark_count [of xs b c] by (simp add: card_abs_as_list)

section \<open>The relation handler\<close>

text \<open>
  On \<open>m_nodes\<close> and its counter the relation handler is the fold of \<open>count_and_mark\<close>
  over the ids of the node members, on \<open>m_ways\<close> and its counter over the ids of the way
  members; so is a list of relations, over the members of all of them.
\<close>

lemma member_refs_Cons: "member_refs t (m # ms) = member_refs t [m] @ member_refs t ms"
  by (simp add: member_refs_def)

lemma member_refs_append: "member_refs t (ms @ ms') = member_refs t ms @ member_refs t ms'"
  by (simp add: member_refs_def)

lemma member_refs_Nil [simp]: "member_refs t [] = []"
  by (simp add: member_refs_def)

lemma relation_member_nodes:
  "(m_nodes (relation_member i m h), m_missing_nodes_in_relations (relation_member i m h)) =
     fold count_and_mark (member_refs it_node [m]) (m_nodes h, m_missing_nodes_in_relations h)"
  by (cases m; cases "member_type m") (simp_all add: relation_member_def member_refs_def Let_def)

lemma relation_member_ways:
  "(m_ways (relation_member i m h), m_missing_ways_in_relations (relation_member i m h)) =
     fold count_and_mark (member_refs it_way [m]) (m_ways h, m_missing_ways_in_relations h)"
  by (cases m; cases "member_type m") (simp_all add: relation_member_def member_refs_def Let_def)

lemma relation_member_frame:
  "m_check_relations (relation_member i m h) = m_check_relations h"
  "m_show_ids (relation_member i m h) = m_show_ids h"
  "m_relation_ids (relation_member i m h) = m_relation_ids h"
  "m_relations_done (relation_member i m h) = m_relations_done h"
  "m_missing_relation_ids (relation_member i m h) = m_missing_relation_ids h"
  "m_node_count (relation_member i m h) = m_node_count h"
  "m_way_count (relation_member i m h) = m_way_count h"
  "m_relation_count (relation_member i m h) = m_relation_count h"
  "m_missing_nodes_in_ways (relation_member i m h) = m_missing_nodes_in_ways h"
  by (cases m; cases "member_type m"; simp add: relation_member_def Let_def)+

lemma fold_relation_member_frame:
  "m_check_relations (fold (relation_member i) ms h) = m_check_relations h"
  "m_show_ids (fold (relation_member i) ms h) = m_show_ids h"
  "m_relation_ids (fold (relation_member i) ms h) = m_relation_ids h"
  "m_relations_done (fold (relation_member i) ms h) = m_relations_done h"
  "m_missing_relation_ids (fold (relation_member i) ms h) = m_missing_relation_ids h"
  "m_node_count (fold (relation_member i) ms h) = m_node_count h"
  "m_way_count (fold (relation_member i) ms h) = m_way_count h"
  "m_relation_count (fold (relation_member i) ms h) = m_relation_count h"
  "m_missing_nodes_in_ways (fold (relation_member i) ms h) = m_missing_nodes_in_ways h"
  by (induction ms arbitrary: h; simp add: relation_member_frame)+

lemma fold_relation_member_nodes:
  "(m_nodes (fold (relation_member i) ms h), m_missing_nodes_in_relations (fold (relation_member i) ms h)) =
     fold count_and_mark (member_refs it_node ms) (m_nodes h, m_missing_nodes_in_relations h)"
proof (induction ms arbitrary: h)
  case Nil
  show ?case by simp
next
  case (Cons m ms)
  show ?case
    by (simp only: fold_simps comp_apply Cons.IH member_refs_Cons [of _ m ms] fold_append
          relation_member_nodes)
qed

lemma fold_relation_member_ways:
  "(m_ways (fold (relation_member i) ms h), m_missing_ways_in_relations (fold (relation_member i) ms h)) =
     fold count_and_mark (member_refs it_way ms) (m_ways h, m_missing_ways_in_relations h)"
proof (induction ms arbitrary: h)
  case Nil
  show ?case by simp
next
  case (Cons m ms)
  show ?case
    by (simp only: fold_simps comp_apply Cons.IH member_refs_Cons [of _ m ms] fold_append
          relation_member_ways)
qed

lemma relation_nodes:
  "m_check_relations h \<Longrightarrow>
   (m_nodes (relation i ms h), m_missing_nodes_in_relations (relation i ms h)) =
     fold count_and_mark (member_refs it_node ms) (m_nodes h, m_missing_nodes_in_relations h)"
  by (simp add: relation_def Let_def fold_relation_member_nodes)

lemma relation_ways:
  "m_check_relations h \<Longrightarrow>
   (m_ways (relation i ms h), m_missing_ways_in_relations (relation i ms h)) =
     fold count_and_mark (member_refs it_way ms) (m_ways h, m_missing_ways_in_relations h)"
  by (simp add: relation_def Let_def fold_relation_member_ways)

lemma relation_frame:
  "m_check_relations (relation i ms h) = m_check_relations h"
  "m_show_ids (relation i ms h) = m_show_ids h"
  "m_relations_done (relation i ms h) = m_relations_done h"
  "m_missing_relation_ids (relation i ms h) = m_missing_relation_ids h"
  "m_node_count (relation i ms h) = m_node_count h"
  "m_way_count (relation i ms h) = m_way_count h"
  "m_relation_count (relation i ms h) = m_relation_count h + 1"
  "m_missing_nodes_in_ways (relation i ms h) = m_missing_nodes_in_ways h"
  by (simp_all add: relation_def Let_def fold_relation_member_frame)

lemma relations_nodes:
  "m_check_relations h \<Longrightarrow>
   (m_nodes (apply_handler (map (\<lambda>r. Relation (fst r) (snd r)) rs) h),
    m_missing_nodes_in_relations (apply_handler (map (\<lambda>r. Relation (fst r) (snd r)) rs) h)) =
     fold count_and_mark (member_refs it_node (concat (map snd rs)))
       (m_nodes h, m_missing_nodes_in_relations h)"
proof (induction rs arbitrary: h)
  case Nil
  show ?case by (simp add: apply_handler_def)
next
  case (Cons r rs)
  have c: "m_check_relations (relation (fst r) (snd r) h)"
    using Cons.prems by (simp add: relation_frame)
  show ?case
    using Cons.IH [OF c] Cons.prems
    by (simp add: apply_handler_def member_refs_append relation_nodes)
qed

lemma relations_ways:
  "m_check_relations h \<Longrightarrow>
   (m_ways (apply_handler (map (\<lambda>r. Relation (fst r) (snd r)) rs) h),
    m_missing_ways_in_relations (apply_handler (map (\<lambda>r. Relation (fst r) (snd r)) rs) h)) =
     fold count_and_mark (member_refs it_way (concat (map snd rs)))
       (m_ways h, m_missing_ways_in_relations h)"
proof (induction rs arbitrary: h)
  case Nil
  show ?case by (simp add: apply_handler_def)
next
  case (Cons r rs)
  have c: "m_check_relations (relation (fst r) (snd r) h)"
    using Cons.prems by (simp add: relation_frame)
  show ?case
    using Cons.IH [OF c] Cons.prems
    by (simp add: apply_handler_def member_refs_append relation_ways)
qed

section \<open>Bits stay set\<close>

text \<open>No handler function clears a bit of \<open>m_nodes\<close> or \<open>m_ways\<close>.\<close>

lemma m_nodes_node: "m_nodes (node i h) = bitsvec_set i (m_nodes h)"
  by (simp add: node_def Let_def)

lemma node_frame:
  "m_ways (node i h) = m_ways h"
  "m_check_relations (node i h) = m_check_relations h"
  "m_show_ids (node i h) = m_show_ids h"
  "m_relations_done (node i h) = m_relations_done h"
  "m_missing_relation_ids (node i h) = m_missing_relation_ids h"
  "m_relation_ids (node i h) = m_relation_ids h"
  "m_member_relation_ids (node i h) = m_member_relation_ids h"
  "m_missing_nodes_in_ways (node i h) = m_missing_nodes_in_ways h"
  "m_missing_nodes_in_relations (node i h) = m_missing_nodes_in_relations h"
  "m_missing_ways_in_relations (node i h) = m_missing_ways_in_relations h"
  by (simp_all add: node_def Let_def)

lemma way_frame:
  "m_check_relations (way w ns h) = m_check_relations h"
  "m_show_ids (way w ns h) = m_show_ids h"
  "m_relations_done (way w ns h) = m_relations_done h"
  "m_missing_relation_ids (way w ns h) = m_missing_relation_ids h"
  "m_relation_ids (way w ns h) = m_relation_ids h"
  "m_member_relation_ids (way w ns h) = m_member_relation_ids h"
  "m_missing_nodes_in_relations (way w ns h) = m_missing_nodes_in_relations h"
  "m_missing_ways_in_relations (way w ns h) = m_missing_ways_in_relations h"
  by (simp_all add: way_def Let_def fold_way_node_ref)

lemma relation_get_nodes_mono:
  "bitsvec_get j (m_nodes h) \<Longrightarrow> bitsvec_get j (m_nodes (relation i ms h))"
proof (cases "m_check_relations h")
  case True
  assume g: "bitsvec_get j (m_nodes h)"
  have "fold count_and_mark (member_refs it_node ms) (m_nodes h, m_missing_nodes_in_relations h) =
        (m_nodes (relation i ms h), m_missing_nodes_in_relations (relation i ms h))"
    using relation_nodes [OF True, of i ms] by simp
  from fst_fold_count_and_mark_pair [OF this, of j] g show ?thesis by simp
next
  case False
  assume "bitsvec_get j (m_nodes h)"
  then show ?thesis using False by (simp add: relation_def Let_def)
qed

lemma relation_get_ways_mono:
  "bitsvec_get j (m_ways h) \<Longrightarrow> bitsvec_get j (m_ways (relation i ms h))"
proof (cases "m_check_relations h")
  case True
  assume g: "bitsvec_get j (m_ways h)"
  have "fold count_and_mark (member_refs it_way ms) (m_ways h, m_missing_ways_in_relations h) =
        (m_ways (relation i ms h), m_missing_ways_in_relations (relation i ms h))"
    using relation_ways [OF True, of i ms] by simp
  from fst_fold_count_and_mark_pair [OF this, of j] g show ?thesis by simp
next
  case False
  assume "bitsvec_get j (m_ways h)"
  then show ?thesis using False by (simp add: relation_def Let_def)
qed

lemma dispatch_get_nodes_mono:
  "bitsvec_get j (m_nodes h) \<Longrightarrow> bitsvec_get j (m_nodes (dispatch obj h))"
  by (cases obj) (simp_all add: m_nodes_node bitsvec_get_set m_nodes_way relation_get_nodes_mono)

lemma dispatch_get_ways_mono:
  "bitsvec_get j (m_ways h) \<Longrightarrow> bitsvec_get j (m_ways (dispatch obj h))"
  by (cases obj) (simp_all add: node_frame bitsvec_get_set m_ways_way relation_get_ways_mono)

lemma apply_handler_get_nodes_mono:
  "bitsvec_get j (m_nodes h) \<Longrightarrow> bitsvec_get j (m_nodes (apply_handler objs h))"
  unfolding apply_handler_def
  by (induction objs arbitrary: h) (simp_all add: dispatch_get_nodes_mono)

lemma apply_handler_get_ways_mono:
  "bitsvec_get j (m_ways h) \<Longrightarrow> bitsvec_get j (m_ways (apply_handler objs h))"
  unfolding apply_handler_def
  by (induction objs arbitrary: h) (simp_all add: dispatch_get_ways_mono)

section \<open>The ledger and its reconciliation\<close>

text \<open>
  On an ascending first list without repetition and an ascending second list,
  \<open>set_difference\<close> returns the elements of the first that are not in the second, in
  ascending order. The handler functions keep the referenced ids ascending and without
  repetition, and leave the reconciliation's flag and result alone.
\<close>

lemma set_difference_subset: "set (set_difference xs ys) \<subseteq> set xs"
  by (induction xs ys rule: set_difference.induct) auto

lemma sorted_set_difference: "sorted xs \<Longrightarrow> sorted (set_difference xs ys)"
proof (induction xs ys rule: set_difference.induct)
  case (1 ys)
  show ?case by simp
next
  case (2 x xs)
  then show ?case by simp
next
  case (3 x xs y ys)
  then show ?case
    using set_difference_subset [of xs "y # ys"] by auto
qed

lemma distinct_set_difference: "distinct xs \<Longrightarrow> distinct (set_difference xs ys)"
proof (induction xs ys rule: set_difference.induct)
  case (1 ys)
  show ?case by simp
next
  case (2 x xs)
  then show ?case by simp
next
  case (3 x xs y ys)
  then show ?case
    using set_difference_subset [of xs "y # ys"] by auto
qed

lemma set_set_difference:
  "sorted xs \<Longrightarrow> distinct xs \<Longrightarrow> sorted ys \<Longrightarrow> set (set_difference xs ys) = set xs - set ys"
proof (induction xs ys rule: set_difference.induct)
  case (1 ys)
  show ?case by simp
next
  case (2 x xs)
  show ?case by simp
next
  case (3 x xs y ys)
  show ?case
  proof (cases "x < y")
    case True
    then have "x \<notin> set (y # ys)" using "3.prems" by auto
    then show ?thesis using True "3.IH"(1) "3.prems" by auto
  next
    case False
    show ?thesis
    proof (cases "y < x")
      case True
      then have "y \<notin> set (x # xs)" using "3.prems" by auto
      then show ?thesis using True False "3.IH"(2) "3.prems" by auto
    next
      case F: False
      then have e: "x = y" using False by simp
      then show ?thesis using False F "3.IH"(3) "3.prems" by auto
    qed
  qed
qed

lemma set_difference_empty:
  assumes "sorted xs" "distinct xs" "sorted ys" "set xs \<subseteq> set ys"
  shows "set_difference xs ys = []"
proof -
  have "set (set_difference xs ys) = {}"
    using set_set_difference [OF assms(1-3)] assms(4) by simp
  then show ?thesis by simp
qed

lemma std_set_insert_props:
  "set (std_set_insert x xs) = insert x (set xs)"
  "sorted xs \<Longrightarrow> sorted (std_set_insert x xs)"
  "distinct xs \<Longrightarrow> distinct (std_set_insert x xs)"
  by (auto simp: std_set_insert_def set_insort_key sorted_insort distinct_insort)

lemma std_set_insert_idem: "std_set_insert x (std_set_insert x xs) = std_set_insert x xs"
  by (simp add: std_set_insert_def set_insort_key)

lemma relation_member_ledger:
  "m_member_relation_ids (relation_member i m h) =
     (if member_type m = it_relation then std_set_insert (ucast i) (m_member_relation_ids h)
      else m_member_relation_ids h)"
  by (cases m; cases "member_type m") (simp_all add: relation_member_def Let_def)

lemma fold_relation_member_ledger:
  "m_member_relation_ids (fold (relation_member i) ms h) =
     (if it_relation \<in> member_type ` set ms then std_set_insert (ucast i) (m_member_relation_ids h)
      else m_member_relation_ids h)"
proof (induction ms arbitrary: h)
  case Nil
  show ?case by simp
next
  case (Cons m ms)
  show ?case
    by (simp only: fold_simps comp_apply Cons.IH relation_member_ledger)
       (simp add: std_set_insert_idem)
qed

lemma relation_ledger:
  "m_relation_ids (relation i ms h) =
     (if m_check_relations h then m_relation_ids h @ [ucast i] else m_relation_ids h)"
  "m_member_relation_ids (relation i ms h) =
     (if m_check_relations h \<and> it_relation \<in> member_type ` set ms
      then std_set_insert (ucast i) (m_member_relation_ids h)
      else m_member_relation_ids h)"
  by (simp_all add: relation_def Let_def fold_relation_member_frame fold_relation_member_ledger)

lemma dispatch_frame:
  "m_relations_done (dispatch obj h) = m_relations_done h"
  "m_missing_relation_ids (dispatch obj h) = m_missing_relation_ids h"
  "m_check_relations (dispatch obj h) = m_check_relations h"
  by (cases obj; simp add: node_frame way_frame relation_frame)+

lemma apply_handler_frame:
  "m_relations_done (apply_handler objs h) = m_relations_done h"
  "m_missing_relation_ids (apply_handler objs h) = m_missing_relation_ids h"
  "m_check_relations (apply_handler objs h) = m_check_relations h"
  unfolding apply_handler_def
  by (induction objs arbitrary: h; simp add: dispatch_frame)+

lemma dispatch_ledger_inv:
  assumes "sorted (m_member_relation_ids h)" "distinct (m_member_relation_ids h)"
    "set (m_member_relation_ids h) \<subseteq> set (m_relation_ids h)"
  shows "sorted (m_member_relation_ids (dispatch obj h))
     \<and> distinct (m_member_relation_ids (dispatch obj h))
     \<and> set (m_member_relation_ids (dispatch obj h)) \<subseteq> set (m_relation_ids (dispatch obj h))"
proof (cases obj)
  case (Node i)
  then show ?thesis using assms by (simp add: node_frame)
next
  case (Way i ns)
  then show ?thesis using assms by (simp add: way_frame)
next
  case (Relation i ms)
  then show ?thesis using assms by (auto simp: relation_ledger std_set_insert_props)
qed

lemma apply_handler_ledger_inv:
  assumes "sorted (m_member_relation_ids h)" "distinct (m_member_relation_ids h)"
    "set (m_member_relation_ids h) \<subseteq> set (m_relation_ids h)"
  shows "sorted (m_member_relation_ids (apply_handler objs h))
     \<and> distinct (m_member_relation_ids (apply_handler objs h))
     \<and> set (m_member_relation_ids (apply_handler objs h)) \<subseteq> set (m_relation_ids (apply_handler objs h))"
  using assms unfolding apply_handler_def
proof (induction objs arbitrary: h)
  case Nil
  then show ?case by simp
next
  case (Cons obj objs)
  have "sorted (m_member_relation_ids (dispatch obj h))
     \<and> distinct (m_member_relation_ids (dispatch obj h))
     \<and> set (m_member_relation_ids (dispatch obj h)) \<subseteq> set (m_relation_ids (dispatch obj h))"
    using Cons.prems by (rule dispatch_ledger_inv)
  then show ?case using Cons.IH [of "dispatch obj h"] by simp
qed

lemma relation_member_first_occurrence:
  "(if bitsvec_get x (m_nodes h)
    then relation_member i (RelationMember it_node x) h = h
    else m_missing_nodes_in_relations (relation_member i (RelationMember it_node x) h) =
           m_missing_nodes_in_relations h + 1
         \<and> bitsvec_get x (m_nodes (relation_member i (RelationMember it_node x) h)))"
  "(if bitsvec_get x (m_ways h)
    then relation_member i (RelationMember it_way x) h = h
    else m_missing_ways_in_relations (relation_member i (RelationMember it_way x) h) =
           m_missing_ways_in_relations h + 1
         \<and> bitsvec_get x (m_ways (relation_member i (RelationMember it_way x) h)))"
  by (simp_all add: relation_member_def Let_def bitsvec_get_set)

text \<open>
  Every id that the relation handler puts into \<open>m_member_relation_ids\<close> is the id of the
  relation being handled, which it has just appended to \<open>m_relation_ids\<close>. So on every
  input the reconciliation finds nothing.
\<close>

lemma relation_check_reports_nothing:
  "missing_relations_in_relations (apply_handler objs (RefCheckHandler_init show_ids check_relations)) = (n, h')
   \<Longrightarrow> n = 0 \<and> m_missing_relation_ids h' = []"
proof -
  let ?h = "apply_handler objs (RefCheckHandler_init show_ids check_relations)"
  assume a: "missing_relations_in_relations ?h = (n, h')"
  have i: "sorted (m_member_relation_ids ?h) \<and> distinct (m_member_relation_ids ?h)
     \<and> set (m_member_relation_ids ?h) \<subseteq> set (m_relation_ids ?h)"
    by (rule apply_handler_ledger_inv) (simp_all add: RefCheckHandler_init_def)
  have d: "\<not> m_relations_done ?h" "m_missing_relation_ids ?h = []"
    by (simp_all add: apply_handler_frame RefCheckHandler_init_def)
  have "set_difference (m_member_relation_ids ?h) (sort (m_relation_ids ?h)) = []"
    using i by (intro set_difference_empty) simp_all
  then show ?thesis
    using a d by (auto simp: missing_relations_in_relations_def Let_def)
qed

lemma missing_relations_in_relations_frame:
  "m_missing_nodes_in_ways (snd (missing_relations_in_relations h)) = m_missing_nodes_in_ways h"
  "m_missing_nodes_in_relations (snd (missing_relations_in_relations h)) = m_missing_nodes_in_relations h"
  "m_missing_ways_in_relations (snd (missing_relations_in_relations h)) = m_missing_ways_in_relations h"
  "fst (missing_relations_in_relations (snd (missing_relations_in_relations h))) =
     fst (missing_relations_in_relations h)"
  by (simp_all add: missing_relations_in_relations_def Let_def)

lemma show_missing_relation_ids_frame:
  "m_missing_nodes_in_ways (show_missing_relation_ids h) = m_missing_nodes_in_ways h"
  "m_missing_nodes_in_relations (show_missing_relation_ids h) = m_missing_nodes_in_relations h"
  "m_missing_ways_in_relations (show_missing_relation_ids h) = m_missing_ways_in_relations h"
  "fst (missing_relations_in_relations (show_missing_relation_ids h)) =
     fst (missing_relations_in_relations h)"
  by (simp_all add: show_missing_relation_ids_def missing_relations_in_relations_def Let_def)

lemma fst_any_errors:
  "fst (any_errors h) \<longleftrightarrow>
      0 < m_missing_nodes_in_ways h \<or> 0 < m_missing_nodes_in_relations h
      \<or> 0 < m_missing_ways_in_relations h \<or> 0 < fst (missing_relations_in_relations h)"
  by (auto simp: any_errors_def split: prod.splits)

lemma run_handler_counters:
  "m_missing_nodes_in_ways (run_handler s c objs) =
     m_missing_nodes_in_ways (apply_handler objs (RefCheckHandler_init s c))"
  "m_missing_nodes_in_relations (run_handler s c objs) =
     m_missing_nodes_in_relations (apply_handler objs (RefCheckHandler_init s c))"
  "m_missing_ways_in_relations (run_handler s c objs) =
     m_missing_ways_in_relations (apply_handler objs (RefCheckHandler_init s c))"
  "fst (missing_relations_in_relations (run_handler s c objs)) =
     fst (missing_relations_in_relations (apply_handler objs (RefCheckHandler_init s c)))"
  by (simp_all add: run_handler_def Let_def missing_relations_in_relations_frame
        show_missing_relation_ids_frame)

section \<open>The Presence Set\<close>

text \<open>
  Claim C7. The Presence Set does not tell an id from its negation: after \<open>set x\<close> the
  query \<open>get (- x)\<close> is true, after \<open>set (- x)\<close> the query \<open>get x\<close> is true, for
  every 64-bit id \<open>x\<close> and every bit vector, because both functions index by
  \<open>std_abs\<close>, which maps \<open>x\<close> and \<open>- x\<close> to the same index.
\<close>

theorem bitsvec_sign_irrelevant:
  "bitsvec_get (- x) (bitsvec_set x b) \<and> bitsvec_get x (bitsvec_set (- x) b)
   \<and> std_abs (- x) = std_abs x"
  by (simp add: bitsvec_get_set std_abs_minus)

text \<open>
  Claim C6, as stated, at the calls \<open>set 5\<close>: the id \<open>- 5\<close> was never marked, and
  \<open>get (- 5)\<close> is true.
\<close>

theorem bitsvec_never_marked_counterexample:
  "bitsvec_get (- 5) (fold bitsvec_set [5] bitsvec_init) \<and> (- 5 :: object_id_type) \<notin> set [5]"
  by (simp add: bitsvec_get_set std_abs_def)

text \<open>
  Claim C6, amended. After any finite sequence of \<open>set\<close> calls on an empty bit vector,
  \<open>get j\<close> is true exactly when some marked id has the absolute value of \<open>j\<close>; the
  right-hand side depends on the set of marked ids only, not on their order. For an id
  whose index is not below the size of the vector, \<open>get\<close> is false.
\<close>

theorem bitsvec_get_after_marks:
  "(bitsvec_get j (fold bitsvec_set ids bitsvec_init) \<longleftrightarrow> (\<exists>i \<in> set ids. std_abs i = std_abs j))
   \<and> (length (m_bits b) \<le> unat (std_abs j) \<longrightarrow> \<not> bitsvec_get j b)"
proof (intro conjI impI)
  show "bitsvec_get j (fold bitsvec_set ids bitsvec_init) \<longleftrightarrow> (\<exists>i \<in> set ids. std_abs i = std_abs j)"
    by (simp add: bitsvec_get_fold_set)
next
  assume "length (m_bits b) \<le> unat (std_abs j)"
  then show "\<not> bitsvec_get j b"
    by (simp add: bitsvec_get_def Let_def)
qed

theorem bitsvec_get_after_marks_witness:
  "bitsvec_get 7 (fold bitsvec_set [3, 7, - 9] bitsvec_init)
   \<and> bitsvec_get 9 (fold bitsvec_set [3, 7, - 9] bitsvec_init)
   \<and> \<not> bitsvec_get 8 (fold bitsvec_set [3, 7, - 9] bitsvec_init)
   \<and> length (m_bits (fold bitsvec_set [3, 7, - 9] bitsvec_init)) = 1048579
   \<and> \<not> bitsvec_get 2000000 (fold bitsvec_set [3, 7, - 9] bitsvec_init)"
  using bitsvec_get_after_marks [of 7 "[3, 7, - 9]" "fold bitsvec_set [3, 7, - 9] bitsvec_init"]
    bitsvec_get_after_marks [of 9 "[3, 7, - 9]" "fold bitsvec_set [3, 7, - 9] bitsvec_init"]
    bitsvec_get_after_marks [of 8 "[3, 7, - 9]" "fold bitsvec_set [3, 7, - 9] bitsvec_init"]
    bitsvec_get_after_marks [of 2000000 "[3, 7, - 9]" "fold bitsvec_set [3, 7, - 9] bitsvec_init"]
  by (simp add: std_abs_def length_bitsvec_set bitsvec_init_def)

text \<open>
  Claim C8. (1) No operation clears a bit: a bit that \<open>get\<close> reports stays reported after
  \<open>set\<close> of any id, and the bits of \<open>m_nodes\<close> and of \<open>m_ways\<close> stay reported after
  the handler has processed any further objects. (2) After \<open>set i\<close> the vector has at
  least \<open>std_abs i + 1\<close> bits; it is resized only when the index is not below its size,
  and then to \<open>std_abs i + 1048576\<close> bits, a chunk of 1024 * 1024 bits beyond the index,
  so after any sequence of \<open>set\<close> calls every marked index is below the size.
\<close>

theorem bitsvec_monotone_and_capacity:
  "(bitsvec_get j b \<longrightarrow> bitsvec_get j (bitsvec_set i b))
   \<and> (bitsvec_get j (m_nodes h) \<longrightarrow> bitsvec_get j (m_nodes (apply_handler objs h)))
   \<and> (bitsvec_get j (m_ways h) \<longrightarrow> bitsvec_get j (m_ways (apply_handler objs h)))
   \<and> unat (std_abs i) + 1 \<le> length (m_bits (bitsvec_set i b))
   \<and> length (m_bits (bitsvec_set i b)) =
       (if length (m_bits b) \<le> unat (std_abs i) then unat (std_abs i) + 1048576
        else length (m_bits b))
   \<and> (\<forall>k \<in> set ids. unat (std_abs k) + 1 \<le> length (m_bits (fold bitsvec_set ids b)))"
proof (intro conjI impI ballI)
  show "bitsvec_get j b \<Longrightarrow> bitsvec_get j (bitsvec_set i b)"
    by (simp add: bitsvec_get_set)
  show "bitsvec_get j (m_nodes h) \<Longrightarrow> bitsvec_get j (m_nodes (apply_handler objs h))"
    by (rule apply_handler_get_nodes_mono)
  show "bitsvec_get j (m_ways h) \<Longrightarrow> bitsvec_get j (m_ways (apply_handler objs h))"
    by (rule apply_handler_get_ways_mono)
  show "unat (std_abs i) + 1 \<le> length (m_bits (bitsvec_set i b))"
    by (simp add: length_bitsvec_set)
  show "length (m_bits (bitsvec_set i b)) =
       (if length (m_bits b) \<le> unat (std_abs i) then unat (std_abs i) + 1048576
        else length (m_bits b))"
    by (rule length_bitsvec_set)
  show "\<And>k. k \<in> set ids \<Longrightarrow> unat (std_abs k) + 1 \<le> length (m_bits (fold bitsvec_set ids b))"
    using capacity_fold_bitsvec_set by (simp add: Suc_le_eq)
qed

theorem bitsvec_monotone_and_capacity_witness:
  "bitsvec_get 5 (bitsvec_set 5 bitsvec_init)
   \<and> bitsvec_get 5 (bitsvec_set 3000000 (bitsvec_set 5 bitsvec_init))
   \<and> bitsvec_get 5 (m_nodes (apply_handler [Node 5] (RefCheckHandler_init False True)))
   \<and> bitsvec_get 5 (m_nodes (apply_handler [Node 9, Way 4 [5, 6], Relation 1 [RelationMember it_node 8]]
         (apply_handler [Node 5] (RefCheckHandler_init False True))))
   \<and> bitsvec_get 4 (m_ways (apply_handler [Way 4 [5]] (RefCheckHandler_init False True)))
   \<and> bitsvec_get 4 (m_ways (apply_handler [Way 7 [], Relation 1 [RelationMember it_way 8]]
         (apply_handler [Way 4 [5]] (RefCheckHandler_init False True))))
   \<and> length (m_bits (bitsvec_set 5 bitsvec_init)) = 1048581
   \<and> length (m_bits (bitsvec_set 6 (bitsvec_set 5 bitsvec_init))) = 1048581
   \<and> length (m_bits (bitsvec_set 3000000 (bitsvec_set 5 bitsvec_init))) = 4048576
   \<and> 3000001 \<le> length (m_bits (fold bitsvec_set [5, 3000000, 6] bitsvec_init))"
proof -
  have a: "bitsvec_get 5 (bitsvec_set 5 bitsvec_init)"
    by (simp add: bitsvec_get_set)
  have n: "bitsvec_get 5 (m_nodes (apply_handler [Node 5] (RefCheckHandler_init False True)))"
    by (simp add: apply_handler_def m_nodes_node bitsvec_get_set)
  have w: "bitsvec_get 4 (m_ways (apply_handler [Way 4 [5]] (RefCheckHandler_init False True)))"
    by (simp add: apply_handler_def m_ways_way bitsvec_get_set RefCheckHandler_init_def)
  have l: "length (m_bits bitsvec_init) = 0"
    by (simp add: bitsvec_init_def)
  have m: "(3000000 :: object_id_type) \<in> set [5, 3000000, 6]" by simp
  show ?thesis
    using bitsvec_monotone_and_capacity [of 5 "bitsvec_set 5 bitsvec_init" 3000000
                "apply_handler [Node 5] (RefCheckHandler_init False True)"
                "[Node 9, Way 4 [5, 6], Relation 1 [RelationMember it_node 8]]"
                "[]"]
      bitsvec_monotone_and_capacity [of 4 "bitsvec_init" 5
                "apply_handler [Way 4 [5]] (RefCheckHandler_init False True)"
                "[Way 7 [], Relation 1 [RelationMember it_way 8]]"
                "[5, 3000000, 6]"]
      bitsvec_monotone_and_capacity [of 4 "bitsvec_set 5 bitsvec_init" 6
                "apply_handler [Way 4 [5]] (RefCheckHandler_init False True)"
                "[Way 7 [], Relation 1 [RelationMember it_way 8]]"
                "[]"]
      a n w m
    by (simp add: l std_abs_def)
qed

section \<open>Ways\<close>

text \<open>
  Claim C3. For every way, the handler adds to \<open>m_missing_nodes_in_ways\<close> the number of
  entries of the way's node list (duplicates counted each time) whose id \<open>get\<close> does not
  report in \<open>m_nodes\<close>; one such entry adds exactly 1, an entry that is reported adds
  nothing; and \<open>m_nodes\<close> is left as it was, so a missing id is still missing for the
  next entry and the next way.
\<close>

theorem way_counts_each_missing_occurrence:
  "m_missing_nodes_in_ways (way w ns h) =
     m_missing_nodes_in_ways h + of_nat (length (filter (\<lambda>r. \<not> bitsvec_get r (m_nodes h)) ns))
   \<and> m_missing_nodes_in_ways (way_node_ref w r h) =
       (if bitsvec_get r (m_nodes h) then m_missing_nodes_in_ways h else m_missing_nodes_in_ways h + 1)
   \<and> m_nodes (way_node_ref w r h) = m_nodes h
   \<and> m_nodes (way w ns h) = m_nodes h"
  by (simp add: m_nodes_way m_missing_nodes_in_ways_way way_node_ref_eq)

theorem way_counts_each_missing_occurrence_witness:
  "m_missing_nodes_in_ways
     (way 11 [3] (way 10 [1, 2, 3, 3] (apply_handler [Node 1, Node 2] (RefCheckHandler_init False False)))) = 3
   \<and> \<not> bitsvec_get 3
        (m_nodes (way 11 [3] (way 10 [1, 2, 3, 3]
           (apply_handler [Node 1, Node 2] (RefCheckHandler_init False False)))))"
proof -
  let ?h = "apply_handler [Node 1, Node 2] (RefCheckHandler_init False False)"
  have n: "m_nodes ?h = bitsvec_set 2 (bitsvec_set 1 bitsvec_init)"
    by (simp add: apply_handler_def m_nodes_node RefCheckHandler_init_def)
  have z: "m_missing_nodes_in_ways ?h = 0"
    by (simp add: apply_handler_def node_frame RefCheckHandler_init_def)
  show ?thesis
    using way_counts_each_missing_occurrence [of 10 "[1, 2, 3, 3]" ?h 3]
      way_counts_each_missing_occurrence [of 11 "[3]" "way 10 [1, 2, 3, 3] ?h" 3]
    unfolding n z
    by (simp add: bitsvec_get_set std_abs_def)
qed

section \<open>Relations\<close>

text \<open>
  Claim C9. When \<open>m_check_relations\<close> is off, the relation handler returns the handler
  with \<open>m_relation_count\<close> incremented and every other field, the output included, as it
  was; and the way handler leaves \<open>m_ways\<close> as it was, while it still counts the way's
  missing nodes.
\<close>

theorem unchecked_relations_frame:
  assumes "\<not> m_check_relations h"
  shows "relation i ms h = h\<lparr>m_relation_count := m_relation_count h + 1\<rparr>
     \<and> m_ways (way w ns h) = m_ways h
     \<and> m_missing_nodes_in_ways (way w ns h) =
         m_missing_nodes_in_ways h +
         of_nat (length (filter (\<lambda>r. \<not> bitsvec_get r (m_nodes h)) ns))"
  using assms by (simp add: relation_unchecked m_ways_way m_missing_nodes_in_ways_way)

theorem unchecked_relations_frame_witness:
  "\<not> m_check_relations (apply_handler [Node 1] (RefCheckHandler_init True False))
   \<and> relation 100 [RelationMember it_node 2, RelationMember it_way 3, RelationMember it_relation 4]
        (apply_handler [Node 1] (RefCheckHandler_init True False)) =
      (apply_handler [Node 1] (RefCheckHandler_init True False))\<lparr>m_relation_count := 1\<rparr>
   \<and> m_ways (way 10 [1, 2, 2] (apply_handler [Node 1] (RefCheckHandler_init True False))) = bitsvec_init
   \<and> m_missing_nodes_in_ways (way 10 [1, 2, 2] (apply_handler [Node 1] (RefCheckHandler_init True False))) = 2"
proof -
  let ?h = "apply_handler [Node 1] (RefCheckHandler_init True False)"
  have c: "\<not> m_check_relations ?h"
    by (simp add: apply_handler_def node_frame RefCheckHandler_init_def)
  have n: "m_nodes ?h = bitsvec_set 1 bitsvec_init"
    by (simp add: apply_handler_def m_nodes_node RefCheckHandler_init_def)
  have o: "m_ways ?h = bitsvec_init" "m_relation_count ?h = 0" "m_missing_nodes_in_ways ?h = 0"
    by (simp_all add: apply_handler_def node_def Let_def RefCheckHandler_init_def)
  show ?thesis
    using unchecked_relations_frame [OF c, of 100
          "[RelationMember it_node 2, RelationMember it_way 3, RelationMember it_relation 4]"
          10 "[1, 2, 2]"] c
    unfolding n o
    by (simp add: bitsvec_get_set std_abs_def)
qed

text \<open>
  Claim C2, as stated, with relation checking on. On the stream of the node \<open>2\<close> and two
  relations that each have the node \<open>- 2\<close> as a member, the id \<open>- 2\<close> was never streamed
  as a node, and the counter of nodes missing in relations stays 0. Likewise on the stream
  of the node \<open>- 2\<close> and two relations that each have the node \<open>2\<close> as a member.
\<close>

theorem relation_member_negated_id_counterexample:
  "(- 2 :: object_id_type) \<notin> set [2]
   \<and> m_missing_nodes_in_relations
        (apply_handler
           [Node 2,
            Relation 100 [RelationMember it_node (- 2)],
            Relation 101 [RelationMember it_node (- 2)]]
           (RefCheckHandler_init False True)) = 0
   \<and> (2 :: object_id_type) \<notin> set [- 2]
   \<and> m_missing_nodes_in_relations
        (apply_handler
           [Node (- 2),
            Relation 100 [RelationMember it_node 2],
            Relation 101 [RelationMember it_node 2]]
           (RefCheckHandler_init False True)) = 0"
  by (simp add: apply_handler_def node_def relation_def relation_member_def Let_def
        RefCheckHandler_init_def bitsvec_get_set std_abs_def)

text \<open>
  Claim C2, amended. With relation checking on, let any list of relations be processed
  from a handler state \<open>h\<close>. The counter of nodes missing in relations grows by the number
  of distinct absolute values among the node-member ids that \<open>m_nodes\<close> of \<open>h\<close> does not
  report: an id that is not reported when the relations begin (neither it nor its negation
  was marked) is counted exactly once in total, whatever the number of members and
  relations that name it or its negation. Afterwards \<open>m_nodes\<close> reports exactly the ids it
  reported before and the ids of the node members, up to sign. At one member: an id that is
  not reported adds 1 and is reported from then on; an id that is reported leaves the
  handler as it was. The same holds for way members, \<open>m_ways\<close> and its counter.
\<close>

theorem relation_members_counted_once:
  assumes "m_check_relations h"
    and "h' = apply_handler (map (\<lambda>r. Relation (fst r) (snd r)) rs) h"
  shows
    "m_missing_nodes_in_relations h' =
       m_missing_nodes_in_relations h +
       of_nat (length (remdups (map std_abs (filter (\<lambda>x. \<not> bitsvec_get x (m_nodes h))
                 (member_refs it_node (concat (map snd rs)))))))
     \<and> (bitsvec_get x (m_nodes h') \<longleftrightarrow>
          bitsvec_get x (m_nodes h) \<or>
          (\<exists>r \<in> set (member_refs it_node (concat (map snd rs))). std_abs r = std_abs x))
     \<and> m_missing_ways_in_relations h' =
       m_missing_ways_in_relations h +
       of_nat (length (remdups (map std_abs (filter (\<lambda>x. \<not> bitsvec_get x (m_ways h))
                 (member_refs it_way (concat (map snd rs)))))))
     \<and> (bitsvec_get x (m_ways h') \<longleftrightarrow>
          bitsvec_get x (m_ways h) \<or>
          (\<exists>r \<in> set (member_refs it_way (concat (map snd rs))). std_abs r = std_abs x))
     \<and> (if bitsvec_get x (m_nodes h)
         then relation_member i (RelationMember it_node x) h = h
         else m_missing_nodes_in_relations (relation_member i (RelationMember it_node x) h) =
                m_missing_nodes_in_relations h + 1
              \<and> bitsvec_get x (m_nodes (relation_member i (RelationMember it_node x) h)))
     \<and> (if bitsvec_get x (m_ways h)
         then relation_member i (RelationMember it_way x) h = h
         else m_missing_ways_in_relations (relation_member i (RelationMember it_way x) h) =
                m_missing_ways_in_relations h + 1
              \<and> bitsvec_get x (m_ways (relation_member i (RelationMember it_way x) h)))"
proof -
  have n: "fold count_and_mark (member_refs it_node (concat (map snd rs)))
             (m_nodes h, m_missing_nodes_in_relations h) =
           (m_nodes h', m_missing_nodes_in_relations h')"
    unfolding assms(2) using relations_nodes [OF assms(1), of rs] by simp
  have w: "fold count_and_mark (member_refs it_way (concat (map snd rs)))
             (m_ways h, m_missing_ways_in_relations h) =
           (m_ways h', m_missing_ways_in_relations h')"
    unfolding assms(2) using relations_ways [OF assms(1), of rs] by simp
  show ?thesis
    using fst_fold_count_and_mark_pair [OF n, of x] snd_fold_count_and_mark_pair [OF n]
      fst_fold_count_and_mark_pair [OF w, of x] snd_fold_count_and_mark_pair [OF w]
      relation_member_first_occurrence [of x h i]
    by blast
qed

theorem relation_members_counted_once_witness:
  "m_check_relations (apply_handler [Node 1] (RefCheckHandler_init False True))
   \<and> \<not> bitsvec_get 2 (m_nodes (apply_handler [Node 1] (RefCheckHandler_init False True)))
   \<and> m_missing_nodes_in_relations
        (apply_handler
           [Relation 100 [RelationMember it_node 1, RelationMember it_node 2, RelationMember it_way 7],
            Relation 101 [RelationMember it_node (- 2), RelationMember it_node 2, RelationMember it_way 7]]
           (apply_handler [Node 1] (RefCheckHandler_init False True))) = 1
   \<and> m_missing_ways_in_relations
        (apply_handler
           [Relation 100 [RelationMember it_node 1, RelationMember it_node 2, RelationMember it_way 7],
            Relation 101 [RelationMember it_node (- 2), RelationMember it_node 2, RelationMember it_way 7]]
           (apply_handler [Node 1] (RefCheckHandler_init False True))) = 1
   \<and> bitsvec_get 2
        (m_nodes (apply_handler
           [Relation 100 [RelationMember it_node 1, RelationMember it_node 2, RelationMember it_way 7],
            Relation 101 [RelationMember it_node (- 2), RelationMember it_node 2, RelationMember it_way 7]]
           (apply_handler [Node 1] (RefCheckHandler_init False True))))"
proof -
  let ?h = "apply_handler [Node 1] (RefCheckHandler_init False True)"
  let ?rs = "[(100, [RelationMember it_node 1, RelationMember it_node 2, RelationMember it_way 7]),
              (101, [RelationMember it_node (- 2), RelationMember it_node 2, RelationMember it_way 7])]"
  have c: "m_check_relations ?h"
    by (simp add: apply_handler_def node_frame RefCheckHandler_init_def)
  have e: "apply_handler
           [Relation 100 [RelationMember it_node 1, RelationMember it_node 2, RelationMember it_way 7],
            Relation 101 [RelationMember it_node (- 2), RelationMember it_node 2, RelationMember it_way 7]]
           ?h = apply_handler (map (\<lambda>r. Relation (fst r) (snd r)) ?rs) ?h"
    by simp
  have n: "m_nodes ?h = bitsvec_set 1 bitsvec_init"
    by (simp add: apply_handler_def m_nodes_node RefCheckHandler_init_def)
  have w: "m_ways ?h = bitsvec_init"
    by (simp add: apply_handler_def node_frame RefCheckHandler_init_def)
  have z: "m_missing_nodes_in_relations ?h = 0" "m_missing_ways_in_relations ?h = 0"
    by (simp_all add: apply_handler_def node_frame RefCheckHandler_init_def)
  show ?thesis
    using relation_members_counted_once [OF c e, of 2 0]
    unfolding n w z
    by (simp add: c member_refs_def bitsvec_get_set std_abs_def)
qed

text \<open>
  Claim C1. On the stream of the node 1, the relation 100 with the members (node, 1),
  (node, 2), (relation, 200), and the relation 300 without members, with relation checking
  on, the handler ends with the observed ids 100 and 300 and with one node missing in
  relations, as the claim says; but the ledger of referenced ids holds 100, the id of the
  referring relation, where the claim has 200, the id of the member, and the
  reconciliation yields no missing relation id where the claim has 200.
\<close>

theorem scenario_relation_ledger_as_coded:
  "m_relation_ids (apply_handler
      [Node 1,
       Relation 100 [RelationMember it_node 1, RelationMember it_node 2, RelationMember it_relation 200],
       Relation 300 []] (RefCheckHandler_init False True)) = [100, 300]
   \<and> m_member_relation_ids (apply_handler
      [Node 1,
       Relation 100 [RelationMember it_node 1, RelationMember it_node 2, RelationMember it_relation 200],
       Relation 300 []] (RefCheckHandler_init False True)) = [100]
   \<and> m_missing_nodes_in_relations (apply_handler
      [Node 1,
       Relation 100 [RelationMember it_node 1, RelationMember it_node 2, RelationMember it_relation 200],
       Relation 300 []] (RefCheckHandler_init False True)) = 1
   \<and> fst (missing_relations_in_relations (apply_handler
      [Node 1,
       Relation 100 [RelationMember it_node 1, RelationMember it_node 2, RelationMember it_relation 200],
       Relation 300 []] (RefCheckHandler_init False True))) = 0
   \<and> m_missing_relation_ids (snd (missing_relations_in_relations (apply_handler
      [Node 1,
       Relation 100 [RelationMember it_node 1, RelationMember it_node 2, RelationMember it_relation 200],
       Relation 300 []] (RefCheckHandler_init False True)))) = []"
  by (simp add: apply_handler_def node_def relation_def relation_member_def Let_def
        RefCheckHandler_init_def bitsvec_get_set std_abs_def std_set_insert_def
        missing_relations_in_relations_def)

text \<open>
  Claim C4. On a handler whose reconciliation has not run (the flag is off, the list of
  missing ids is empty, and the set of referenced ids is in its ascending order without
  repetition, as \<open>std_set_insert\<close> keeps it), \<open>missing_relations_in_relations\<close> stores
  the difference of the referenced ids and the sorted observed ids: as a set it is the
  referenced ids without the observed ids, it is ascending and without repetition, and the
  number returned is its length. The flag is then on, a second call returns the same
  number and the same handler, and so does a call after any further objects were handled:
  the difference is not computed again and no entry is added.
\<close>

theorem missing_relations_in_relations_once:
  assumes "\<not> m_relations_done h" and "m_missing_relation_ids h = []"
    and "sorted (m_member_relation_ids h)" and "distinct (m_member_relation_ids h)"
    and "missing_relations_in_relations h = (n, h')"
  shows "m_missing_relation_ids h' = set_difference (m_member_relation_ids h) (sort (m_relation_ids h))
    \<and> set (m_missing_relation_ids h') = set (m_member_relation_ids h) - set (m_relation_ids h)
    \<and> sorted (m_missing_relation_ids h') \<and> distinct (m_missing_relation_ids h')
    \<and> n = of_nat (length (m_missing_relation_ids h'))
    \<and> m_relations_done h'
    \<and> missing_relations_in_relations h' = (n, h')
    \<and> missing_relations_in_relations (apply_handler objs h') = (n, apply_handler objs h')"
proof -
  have m: "m_missing_relation_ids h' = set_difference (m_member_relation_ids h) (sort (m_relation_ids h))"
    and n: "n = of_nat (length (m_missing_relation_ids h'))"
    and d: "m_relations_done h'"
    using assms(1,2,5) by (auto simp: missing_relations_in_relations_def Let_def)
  have s: "set (m_missing_relation_ids h') = set (m_member_relation_ids h) - set (m_relation_ids h)"
    unfolding m using set_set_difference [OF assms(3,4), of "sort (m_relation_ids h)"] by simp
  have o: "sorted (m_missing_relation_ids h')" "distinct (m_missing_relation_ids h')"
    unfolding m using assms(3,4) by (simp_all add: sorted_set_difference distinct_set_difference)
  have r: "missing_relations_in_relations h' = (n, h')"
    using d n by (simp add: missing_relations_in_relations_def)
  have a: "missing_relations_in_relations (apply_handler objs h') = (n, apply_handler objs h')"
    using d n by (simp add: missing_relations_in_relations_def apply_handler_frame)
  show ?thesis using m s o n d r a by blast
qed

theorem missing_relations_in_relations_once_witness:
  "missing_relations_in_relations
     ((RefCheckHandler_init False True)
        \<lparr>m_relation_ids := [300, 100, 500], m_member_relation_ids := [100, 200, 400]\<rparr>) =
     (2, (RefCheckHandler_init False True)
        \<lparr>m_relation_ids := [100, 300, 500], m_member_relation_ids := [100, 200, 400],
         m_missing_relation_ids := [200, 400], m_relations_done := True\<rparr>)
   \<and> missing_relations_in_relations
       ((RefCheckHandler_init False True)
        \<lparr>m_relation_ids := [100, 300, 500], m_member_relation_ids := [100, 200, 400],
         m_missing_relation_ids := [200, 400], m_relations_done := True\<rparr>) =
     (2, (RefCheckHandler_init False True)
        \<lparr>m_relation_ids := [100, 300, 500], m_member_relation_ids := [100, 200, 400],
         m_missing_relation_ids := [200, 400], m_relations_done := True\<rparr>)"
proof -
  let ?h = "(RefCheckHandler_init False True)
        \<lparr>m_relation_ids := [300, 100, 500], m_member_relation_ids := [100, 200, 400]\<rparr>"
  let ?h' = "(RefCheckHandler_init False True)
        \<lparr>m_relation_ids := [100, 300, 500], m_member_relation_ids := [100, 200, 400],
         m_missing_relation_ids := [200, 400], m_relations_done := True\<rparr>"
  have a: "\<not> m_relations_done ?h" "m_missing_relation_ids ?h = []"
    "sorted (m_member_relation_ids ?h)" "distinct (m_member_relation_ids ?h)"
    by (simp_all add: RefCheckHandler_init_def)
  have e: "missing_relations_in_relations ?h = (2, ?h')"
    by (simp add: missing_relations_in_relations_def RefCheckHandler_init_def Let_def)
  show ?thesis
    using missing_relations_in_relations_once [OF a e, of "[]"] e by simp
qed

section \<open>The result of the run\<close>

text \<open>
  Claim C5, as stated, on the handler after the nodes 1 and 2 and the way 10 with the
  nodes 1, 2, 3, with relation checking on: the reconciliation has not run, \<open>any_errors\<close>
  returns true, and the reconciliation has still not run. On the same stream without
  relation checking, the handler that \<open>run\<close> ends with has not run it either.
\<close>

theorem any_errors_skips_reconciliation_counterexample:
  "\<not> m_relations_done (apply_handler [Node 1, Node 2, Way 10 [1, 2, 3]] (RefCheckHandler_init False True))
   \<and> fst (any_errors (apply_handler [Node 1, Node 2, Way 10 [1, 2, 3]] (RefCheckHandler_init False True)))
   \<and> \<not> m_relations_done
        (snd (any_errors (apply_handler [Node 1, Node 2, Way 10 [1, 2, 3]] (RefCheckHandler_init False True))))
   \<and> \<not> m_relations_done
        (snd (any_errors (run_handler False False [Node 1, Node 2, Way 10 [1, 2, 3]])))"
proof -
  let ?h = "apply_handler [Node 1, Node 2, Way 10 [1, 2, 3]] (RefCheckHandler_init False True)"
  let ?g = "run_handler False False [Node 1, Node 2, Way 10 [1, 2, 3]]"
  have d: "\<not> m_relations_done ?h"
    by (simp add: apply_handler_frame RefCheckHandler_init_def)
  have m: "m_missing_nodes_in_ways ?h = 1"
    by (simp add: apply_handler_def m_missing_nodes_in_ways_way m_nodes_node node_frame
        RefCheckHandler_init_def bitsvec_get_set std_abs_def)
  have h: "any_errors ?h = (True, ?h)"
    unfolding any_errors_def m by simp
  have e: "\<not> m_relations_done ?g"
    by (simp add: run_handler_def apply_handler_frame RefCheckHandler_init_def)
  have n: "m_missing_nodes_in_ways ?g = 1"
    by (simp add: run_handler_def apply_handler_def m_missing_nodes_in_ways_way m_nodes_node
        node_frame RefCheckHandler_init_def bitsvec_get_set std_abs_def)
  have g: "any_errors ?g = (True, ?g)"
    unfolding any_errors_def n by simp
  show ?thesis using d e by (simp add: h g)
qed

text \<open>
  Claim C5, amended. \<open>any_errors\<close> returns true exactly when one of the three counters
  kept during the stream is above 0 or the number that \<open>missing_relations_in_relations\<close>
  returns is above 0. It calls \<open>missing_relations_in_relations\<close> only when the three
  counters are all 0, and otherwise leaves the handler as it was. The run reports success
  exactly when \<open>any_errors\<close> returns false on the handler it ends with, which is exactly
  when, on the handler as the stream left it, the three counters are 0 and
  \<open>missing_relations_in_relations\<close> returns 0.
\<close>

theorem any_errors_iff_some_counter:
  "(fst (any_errors h) \<longleftrightarrow>
      0 < m_missing_nodes_in_ways h \<or> 0 < m_missing_nodes_in_relations h
      \<or> 0 < m_missing_ways_in_relations h \<or> 0 < fst (missing_relations_in_relations h))
   \<and> snd (any_errors h) =
       (if m_missing_nodes_in_ways h = 0 \<and> m_missing_nodes_in_relations h = 0
           \<and> m_missing_ways_in_relations h = 0
        then snd (missing_relations_in_relations h) else h)
   \<and> run show_ids check_relations objs =
       (\<not> fst (any_errors (run_handler show_ids check_relations objs)))
   \<and> run show_ids check_relations objs =
       (m_missing_nodes_in_ways (apply_handler objs (RefCheckHandler_init show_ids check_relations)) = 0
        \<and> m_missing_nodes_in_relations (apply_handler objs (RefCheckHandler_init show_ids check_relations)) = 0
        \<and> m_missing_ways_in_relations (apply_handler objs (RefCheckHandler_init show_ids check_relations)) = 0
        \<and> fst (missing_relations_in_relations
                 (apply_handler objs (RefCheckHandler_init show_ids check_relations))) = 0)"
proof (intro conjI)
  show "fst (any_errors h) \<longleftrightarrow>
      0 < m_missing_nodes_in_ways h \<or> 0 < m_missing_nodes_in_relations h
      \<or> 0 < m_missing_ways_in_relations h \<or> 0 < fst (missing_relations_in_relations h)"
    by (rule fst_any_errors)
  show "snd (any_errors h) =
       (if m_missing_nodes_in_ways h = 0 \<and> m_missing_nodes_in_relations h = 0
           \<and> m_missing_ways_in_relations h = 0
        then snd (missing_relations_in_relations h) else h)"
    by (auto simp: any_errors_def word_greater_zero_iff split: prod.splits)
  show "run show_ids check_relations objs =
       (\<not> fst (any_errors (run_handler show_ids check_relations objs)))"
    by (simp add: run_def)
  show "run show_ids check_relations objs =
       (m_missing_nodes_in_ways (apply_handler objs (RefCheckHandler_init show_ids check_relations)) = 0
        \<and> m_missing_nodes_in_relations (apply_handler objs (RefCheckHandler_init show_ids check_relations)) = 0
        \<and> m_missing_ways_in_relations (apply_handler objs (RefCheckHandler_init show_ids check_relations)) = 0
        \<and> fst (missing_relations_in_relations
                 (apply_handler objs (RefCheckHandler_init show_ids check_relations))) = 0)"
    by (auto simp: run_def fst_any_errors run_handler_counters word_greater_zero_iff)
qed

theorem any_errors_iff_some_counter_witness:
  "\<not> run False False [Node 1, Node 2, Way 10 [1, 2, 3]]
   \<and> run False False [Node 1, Node 2, Way 10 [1, 2]]"
proof -
  let ?h = "run_handler False False [Node 1, Node 2, Way 10 [1, 2, 3]]"
  let ?g = "run_handler False False [Node 1, Node 2, Way 10 [1, 2]]"
  have h: "m_missing_nodes_in_ways ?h = 1"
    by (simp add: run_handler_def apply_handler_def m_missing_nodes_in_ways_way m_nodes_node node_frame
        RefCheckHandler_init_def bitsvec_get_set std_abs_def)
  have g: "m_missing_nodes_in_ways ?g = 0" "m_missing_nodes_in_relations ?g = 0"
    "m_missing_ways_in_relations ?g = 0"
    "fst (missing_relations_in_relations ?g) = 0"
    by (simp_all add: run_handler_def apply_handler_def m_missing_nodes_in_ways_way m_nodes_node node_frame
        way_frame missing_relations_in_relations_def Let_def
        RefCheckHandler_init_def bitsvec_get_set std_abs_def)
  show ?thesis
    using any_errors_iff_some_counter [of ?h False False "[Node 1, Node 2, Way 10 [1, 2, 3]]"]
      any_errors_iff_some_counter [of ?g False False "[Node 1, Node 2, Way 10 [1, 2]]"]
    unfolding h g by simp
qed

section \<open>Relation ids of 32 bits\<close>

text \<open>
  Claim C10. With relation checking on, the relation handler appends to the observed ids
  the relation's id cut to 32 bits, and what it inserts into the referenced ids is an id
  cut to 32 bits as well. Two relation ids with the same low 32 bits leave the same two
  ledgers, and in a reconciliation (on a handler \<open>g\<close> where it has not run) the one,
  observed, keeps the other from being reported missing. The bit vectors are not cut:
  after \<open>set a\<close> on an empty vector, \<open>get b\<close> is true exactly when \<open>a\<close> and \<open>b\<close> have the
  same 64-bit absolute value.
\<close>

theorem relation_ids_truncated:
  assumes "m_check_relations h"
  shows "m_relation_ids (relation a ms h) = m_relation_ids h @ [ucast a]
    \<and> m_member_relation_ids (relation a ms h) =
        (if it_relation \<in> member_type ` set ms
         then std_set_insert (ucast a) (m_member_relation_ids h)
         else m_member_relation_ids h)
    \<and> ((ucast a :: 32 word) = ucast b \<longrightarrow>
         m_relation_ids (relation a ms h) = m_relation_ids (relation b ms h)
         \<and> m_member_relation_ids (relation a ms h) = m_member_relation_ids (relation b ms h))
    \<and> ((ucast a :: 32 word) = ucast b \<and> ucast a \<in> set (m_relation_ids g)
         \<and> \<not> m_relations_done g \<and> m_missing_relation_ids g = []
         \<and> sorted (m_member_relation_ids g) \<and> distinct (m_member_relation_ids g) \<longrightarrow>
         ucast b \<notin> set (m_missing_relation_ids (snd (missing_relations_in_relations g))))
    \<and> (bitsvec_get b (bitsvec_set a bitsvec_init) \<longleftrightarrow> std_abs b = std_abs a)"
proof (intro conjI impI)
  show "m_relation_ids (relation a ms h) = m_relation_ids h @ [ucast a]"
    using assms by (simp add: relation_ledger)
  show "m_member_relation_ids (relation a ms h) =
        (if it_relation \<in> member_type ` set ms
         then std_set_insert (ucast a) (m_member_relation_ids h)
         else m_member_relation_ids h)"
    using assms by (simp add: relation_ledger)
  show "m_relation_ids (relation a ms h) = m_relation_ids (relation b ms h)"
    if "(ucast a :: 32 word) = ucast b"
    using that by (simp add: relation_ledger)
  show "m_member_relation_ids (relation a ms h) = m_member_relation_ids (relation b ms h)"
    if "(ucast a :: 32 word) = ucast b"
    using that by (simp add: relation_ledger)
  show "ucast b \<notin> set (m_missing_relation_ids (snd (missing_relations_in_relations g)))"
    if p: "(ucast a :: 32 word) = ucast b \<and> ucast a \<in> set (m_relation_ids g)
         \<and> \<not> m_relations_done g \<and> m_missing_relation_ids g = []
         \<and> sorted (m_member_relation_ids g) \<and> distinct (m_member_relation_ids g)"
  proof -
    have "set (set_difference (m_member_relation_ids g) (sort (m_relation_ids g))) =
          set (m_member_relation_ids g) - set (sort (m_relation_ids g))"
      using p by (intro set_set_difference) simp_all
    moreover have "ucast b \<in> set (m_relation_ids g)"
      using p by metis
    ultimately show ?thesis
      using p by (simp add: missing_relations_in_relations_def Let_def)
  qed
  show "bitsvec_get b (bitsvec_set a bitsvec_init) \<longleftrightarrow> std_abs b = std_abs a"
    by (simp add: bitsvec_get_set)
qed

theorem relation_ids_truncated_witness:
  "m_check_relations (RefCheckHandler_init False True)
   \<and> (4294967301 :: object_id_type) \<noteq> 5
   \<and> m_relation_ids (relation 4294967301 [RelationMember it_relation 7] (RefCheckHandler_init False True)) = [5]
   \<and> m_relation_ids (relation 5 [RelationMember it_relation 7] (RefCheckHandler_init False True)) = [5]
   \<and> m_member_relation_ids (relation 4294967301 [RelationMember it_relation 7] (RefCheckHandler_init False True)) = [5]
   \<and> m_member_relation_ids (relation 5 [RelationMember it_relation 7] (RefCheckHandler_init False True)) = [5]
   \<and> \<not> bitsvec_get 5 (bitsvec_set 4294967301 bitsvec_init)
   \<and> 5 \<notin> set (m_missing_relation_ids (snd (missing_relations_in_relations
         ((RefCheckHandler_init False True)
            \<lparr>m_relation_ids := [9, ucast (4294967301 :: object_id_type)],
             m_member_relation_ids := [5, 6]\<rparr>))))"
proof -
  let ?g = "(RefCheckHandler_init False True)
            \<lparr>m_relation_ids := [9, ucast (4294967301 :: object_id_type)],
             m_member_relation_ids := [5, 6]\<rparr>"
  have c: "m_check_relations (RefCheckHandler_init False True)"
    by (simp add: RefCheckHandler_init_def)
  have l: "m_relation_ids (RefCheckHandler_init False True) = []"
    "m_member_relation_ids (RefCheckHandler_init False True) = []"
    by (simp_all add: RefCheckHandler_init_def)
  have u: "(ucast (4294967301 :: object_id_type) :: 32 word) = 5" by simp
  have v: "(ucast (5 :: object_id_type) :: 32 word) = 5" by simp
  have g: "ucast (4294967301 :: object_id_type) \<in> set (m_relation_ids ?g)"
    "\<not> m_relations_done ?g" "m_missing_relation_ids ?g = []"
    "sorted (m_member_relation_ids ?g)" "distinct (m_member_relation_ids ?g)"
    by (simp_all add: RefCheckHandler_init_def)
  show ?thesis
    using relation_ids_truncated [OF c, of 4294967301 "[RelationMember it_relation 7]" 5 ?g] c g
    unfolding l u v
    by (auto simp: std_set_insert_def std_abs_def)
qed

end
